theory Spec2Isabelle
  imports Main "HOL-Library.Multiset" "HOL-Library.Sublist"
begin

section \<open>website2pdf: the conversion pipeline\<close>

text \<open>
  The pipeline of \<^verbatim>\<open>website2pdf.ts\<close> (\<^verbatim>\<open>processSitemaps\<close>, \<^verbatim>\<open>processSitemap\<close>,
  \<^verbatim>\<open>sitemapToPDF\<close>, \<^verbatim>\<open>pageToPDF\<close>) is a chain of promises over three collaborators:
  the browser (puppeteer), the file system (fs-extra) and the promise pool. The embedding
  makes the collaborators' answers a parameter (\<open>env\<close>) and the program a function of it:
  a promise is the list of effects it performed until it settled, together with the value
  it resolved with or the error it rejected with.
\<close>

subsection \<open>Constants (utils/const.ts)\<close>

definition DEFAULT_SAFE_TITLE :: bool where
  "DEFAULT_SAFE_TITLE = False"

definition DEFAULT_PROCESS_POOL :: nat where
  "DEFAULT_PROCESS_POOL = 10"

subsection \<open>Data\<close>

type_synonym url = string
type_synonym path = string

text \<open>\<^verbatim>\<open>STATUS_PRINTED\<close> and \<^verbatim>\<open>STATUS_ERROR\<close> are imported from \<^verbatim>\<open>utils/stats\<close>.\<close>

datatype status = STATUS_PRINTED | STATUS_ERROR

record ConversionOutcome =
  o_url :: url
  o_filePath :: path
  o_status :: status

record PdfTemplate =
  header :: string
  footer :: string

record WebsiteSitemap =
  rootUrl :: url
  urls :: "url list"

record Website =
  sitemaps :: "WebsiteSitemap list"
  pdfTemplate :: PdfTemplate

text \<open>The fields of \<^verbatim>\<open>ICliArguments\<close> that the pipeline reads.\<close>

record ICliArguments =
  outputDir :: path
  processPool :: nat
  safeTitle :: bool
  displayHeaderFooter :: bool
  marginTop :: string
  marginBottom :: string
  marginLeft :: string
  marginRight :: string

text \<open>The argument of \<^verbatim>\<open>page.pdf\<close> (\<^verbatim>\<open>timeout: 0\<close>, \<^verbatim>\<open>format: 'a4'\<close> and
  \<^verbatim>\<open>printBackground: true\<close> are constants of the call).\<close>

record PDFOptions =
  pdf_path :: path
  pdf_displayHeaderFooter :: bool
  headerTemplate :: string
  footerTemplate :: string
  margin_top :: string
  margin_bottom :: string
  margin_left :: string
  margin_right :: string

text \<open>
  \<^verbatim>\<open>metadatas\<close> is a \<^verbatim>\<open>Map<string, string>\<close>; at run time a value is \<^verbatim>\<open>null\<close> (here
  \<open>None\<close>) when a meta tag has a name and no content attribute.
\<close>

type_synonym metadata = "string \<rightharpoonup> string option"

text \<open>A meta element of the page: its \<^verbatim>\<open>name\<close> and its \<^verbatim>\<open>content\<close> attribute, \<open>None\<close> when
  \<^verbatim>\<open>getAttribute\<close> returns \<^verbatim>\<open>null\<close>.\<close>

type_synonym meta_tag = "string option \<times> string option"

subsection \<open>Effects and promises\<close>

datatype level = Debug | Info | Warn

datatype error =
    LaunchError | VersionError | ContextError | BrowserCloseError
  | NewPageError | FsError | NavigationError | EvalError | RenderError | PageCloseError
  | UnhandledRejection

text \<open>
  One event per call to a collaborator, in the order the calls settle; the flag says
  whether the call resolved (\<open>True\<close>) or rejected.
\<close>

datatype event =
    Launch bool
  | BrowserVersion bool
  | CreateContext bool
  | BrowserClose bool
  | NewPage url bool
  | EnsureDir path bool
  | Goto url bool
  | EvalMeta url bool
  | PrintPdf url PDFOptions bool
  | ClosePage url bool
  | StoreResult url path status
  | PrintResults
  | Logger level
  | ProcessExit

type_synonym 'a promise = "event list \<times> (error + 'a)"

definition resolve :: "'a \<Rightarrow> 'a promise" where
  "resolve v = ([], Inr v)"

definition reject :: "error \<Rightarrow> 'a promise" where
  "reject err = ([], Inl err)"

text \<open>\<^verbatim>\<open>p.then(f)\<close>: \<open>f\<close> runs when \<open>p\<close> resolved; a rejection of \<open>p\<close> passes through.\<close>

definition then_p :: "'a promise \<Rightarrow> ('a \<Rightarrow> 'b promise) \<Rightarrow> 'b promise" where
  "then_p p f =
     (case snd p of
        Inl err \<Rightarrow> (fst p, Inl err)
      | Inr v \<Rightarrow> (fst p @ fst (f v), snd (f v)))"

text \<open>\<^verbatim>\<open>p.catch(h)\<close>: \<open>h\<close> runs when \<open>p\<close> rejected.\<close>

definition catch_p :: "'a promise \<Rightarrow> (error \<Rightarrow> 'a promise) \<Rightarrow> 'a promise" where
  "catch_p p h =
     (case snd p of
        Inl err \<Rightarrow> (fst p @ fst (h err), snd (h err))
      | Inr v \<Rightarrow> p)"

text \<open>\<^verbatim>\<open>p.finally(q)\<close>: \<open>q\<close> runs when \<open>p\<close> settled, either way; the result is \<open>p\<close>'s
  unless \<open>q\<close> rejects.\<close>

definition finally_p :: "'a promise \<Rightarrow> unit promise \<Rightarrow> 'a promise" where
  "finally_p p q =
     (fst p @ fst q,
      case snd q of Inl err \<Rightarrow> Inl err | Inr _ \<Rightarrow> snd p)"

text \<open>A call to a collaborator that resolves with no value of interest.\<close>

definition call :: "(bool \<Rightarrow> event) \<Rightarrow> bool \<Rightarrow> error \<Rightarrow> unit promise" where
  "call ev ok err = ([ev ok], if ok then Inr () else Inl err)"

definition logger :: "level \<Rightarrow> unit promise" where
  "logger l = ([Logger l], Inr ())"

subsection \<open>The collaborators\<close>

text \<open>
  \<^verbatim>\<open>page.title()\<close> is called without being returned to the chain
  (\<^verbatim>\<open>.then(() => { page.title().then(title => { metadatas.set('title', title); }); })\<close>), so
  the chain does not wait for it. When its callback runs is the scheduler's choice:
  before the meta tags are stored, after them but before \<open>metadatas\<close> is read, or later.
  When \<^verbatim>\<open>page.title()\<close> rejects, nothing handles the rejection (the promise has no
  \<^verbatim>\<open>.catch\<close> and is not part of the chain): Node ends the process (\<open>TitleRejected\<close>).
\<close>

datatype title_timing = TitleBeforeMetas | TitleAfterMetas | TitleTooLate | TitleRejected

record page_env =
  newPage_ok :: bool
  goto_ok :: bool
  document_title :: string
  title_at :: title_timing
  document_metas :: "meta_tag list option"
  pdf_ok :: bool
  close_ok :: bool

text \<open>
  The answers of the browser and the file system: whether each call resolves, and what a
  page holds. \<open>document_metas\<close> is \<open>None\<close> when \<^verbatim>\<open>page.$$eval\<close> rejects. \<open>pick\<close> is the
  scheduler: which in-flight task of a pool takes its next step.
\<close>

record env =
  launch_ok :: bool
  version_ok :: bool
  context_ok :: bool
  browserClose_ok :: bool
  ensureDir_ok :: "path \<Rightarrow> bool"
  page :: "url \<Rightarrow> page_env"
  pick :: "event list list \<Rightarrow> event list list \<Rightarrow> nat"

text \<open>
  The functions of \<^verbatim>\<open>utils/helpers\<close> and of Node's \<^verbatim>\<open>path\<close> that the pipeline calls; their
  code is not part of the sources at hand, so they are parameters (taken to return, not
  to throw).
\<close>

record helpers =
  toFilePath :: "url \<Rightarrow> path"
  toFilename :: "string option \<Rightarrow> bool \<Rightarrow> string"
  interpolate :: "string \<Rightarrow> metadata \<Rightarrow> string"
  path_join :: "path \<Rightarrow> path \<Rightarrow> path"
  path_normalize :: "path \<Rightarrow> path"

definition newPage :: "env \<Rightarrow> url \<Rightarrow> unit promise" where
  "newPage e u = call (NewPage u) (newPage_ok (page e u)) NewPageError"

definition ensureDir :: "env \<Rightarrow> path \<Rightarrow> unit promise" where
  "ensureDir e d = call (EnsureDir d) (ensureDir_ok e d) FsError"

definition goto :: "env \<Rightarrow> url \<Rightarrow> unit promise" where
  "goto e u = call (Goto u) (goto_ok (page e u)) NavigationError"

definition page_pdf :: "env \<Rightarrow> url \<Rightarrow> PDFOptions \<Rightarrow> unit promise" where
  "page_pdf e u opts = call (PrintPdf u opts) (pdf_ok (page e u)) RenderError"

definition page_close :: "env \<Rightarrow> url \<Rightarrow> unit promise" where
  "page_close e u = call (ClosePage u) (close_ok (page e u)) PageCloseError"

text \<open>
  The callback with the call of \<^verbatim>\<open>page.title()\<close>. It returns at once, and the chain goes
  on. When \<^verbatim>\<open>page.title()\<close> rejects, the unhandled rejection ends the process: the
  event \<open>ProcessExit\<close> marks the point (placed where the call is made, the earliest it
  can be) and the callbacks of the chain are skipped. Of the run only the effects up to
  \<open>ProcessExit\<close> are observed (\<open>until_exit\<close> below): what a trace lists after
  it, such as the \<^verbatim>\<open>.finally\<close> of this chain or the later tasks of a pool, does not
  happen.
\<close>

definition page_title :: "env \<Rightarrow> url \<Rightarrow> unit promise" where
  "page_title e u =
     (if title_at (page e u) = TitleRejected then ([ProcessExit], Inl UnhandledRejection)
      else resolve ())"

text \<open>
  The function \<^verbatim>\<open>page.$$eval('meta', ...)\<close> runs in the page: a meta element whose name
  is \<^verbatim>\<open>null\<close> or empty (falsy) gives \<^verbatim>\<open>null\<close>, any other gives the pair of its name and
  content. (\<^verbatim>\<open>filter(meta => meta !== null)\<close> keeps every element.)
\<close>

definition pageFunction :: "meta_tag list \<Rightarrow> (string \<times> string option) option list" where
  "pageFunction metas =
     map (\<lambda>meta. case fst meta of
                    None \<Rightarrow> None
                  | Some metaName \<Rightarrow> if metaName = [] then None else Some (metaName, snd meta))
       metas"

definition page_eval_meta :: "env \<Rightarrow> url \<Rightarrow> (string \<times> string option) option list promise" where
  "page_eval_meta e u =
     (case document_metas (page e u) of
        None \<Rightarrow> ([EvalMeta u False], Inl EvalError)
      | Some metas \<Rightarrow> ([EvalMeta u True], Inr (pageFunction metas)))"

text \<open>\<^verbatim>\<open>metas.forEach(meta => { if (meta) metadatas.set(meta[0]!, meta[1]!); })\<close>\<close>

definition store_metas :: "metadata \<Rightarrow> (string \<times> string option) option list \<Rightarrow> metadata" where
  "store_metas m metas =
     foldl (\<lambda>acc meta. case meta of None \<Rightarrow> acc | Some (n, c) \<Rightarrow> acc(n \<mapsto> c)) m metas"

text \<open>
  \<open>metadatas\<close> as the last callback of the chain reads it: the title callback and the
  \<^verbatim>\<open>forEach\<close> write the same map, in the order the scheduler ran them.
\<close>

definition metadatas_read ::
  "title_timing \<Rightarrow> string \<Rightarrow> (string \<times> string option) option list \<Rightarrow> metadata" where
  "metadatas_read timing title metas =
     (case timing of
        TitleBeforeMetas \<Rightarrow> store_metas (Map.empty(''title'' \<mapsto> Some title)) metas
      | TitleAfterMetas \<Rightarrow> (store_metas Map.empty metas)(''title'' \<mapsto> Some title)
      | TitleTooLate \<Rightarrow> store_metas Map.empty metas
      | TitleRejected \<Rightarrow> store_metas Map.empty metas)"

text \<open>Modelled from the spec: \<^verbatim>\<open>PrintResults.storeResult\<close> (\<^verbatim>\<open>utils/stats\<close>) "appends one
  ConversionOutcome"; the collection is what the trace's \<open>StoreResult\<close> events appended.\<close>

definition storeResult :: "url \<Rightarrow> path \<Rightarrow> status \<Rightarrow> unit promise" where
  "storeResult u p s = ([StoreResult u p s], Inr ())"

fun results_of :: "event list \<Rightarrow> ConversionOutcome list" where
  "results_of [] = []"
| "results_of (StoreResult u p s # evs) =
     \<lparr>o_url = u, o_filePath = p, o_status = s\<rparr> # results_of evs"
| "results_of (_ # evs) = results_of evs"

subsection \<open>pageToPDF\<close>

text \<open>\<^verbatim>\<open>metadatas.get('title')?.toString()\<close>: \<^verbatim>\<open>undefined\<close> when the key is absent or its
  value is \<^verbatim>\<open>null\<close>.\<close>

definition get_title :: "metadata \<Rightarrow> string option" where
  "get_title metadatas = (case metadatas ''title'' of None \<Rightarrow> None | Some v \<Rightarrow> v)"

definition pdf_filePath :: "helpers \<Rightarrow> ICliArguments \<Rightarrow> path \<Rightarrow> metadata \<Rightarrow> path" where
  "pdf_filePath h cliArgs fileDir metadatas =
     path_join h fileDir (toFilename h (get_title metadatas) (safeTitle cliArgs) @ ''.pdf'')"

definition pdf_options ::
  "helpers \<Rightarrow> ICliArguments \<Rightarrow> PdfTemplate \<Rightarrow> path \<Rightarrow> metadata \<Rightarrow> PDFOptions" where
  "pdf_options h cliArgs tpl filePath metadatas =
     \<lparr>pdf_path = filePath,
      pdf_displayHeaderFooter = displayHeaderFooter cliArgs,
      headerTemplate = interpolate h (header tpl) metadatas,
      footerTemplate = interpolate h (footer tpl) metadatas,
      margin_top = marginTop cliArgs,
      margin_bottom = marginBottom cliArgs,
      margin_left = marginLeft cliArgs,
      margin_right = marginRight cliArgs\<rparr>"

text \<open>The last \<^verbatim>\<open>.then\<close> of the chain: print, and store the result of the print.\<close>

definition print_page ::
  "helpers \<Rightarrow> env \<Rightarrow> ICliArguments \<Rightarrow> path \<Rightarrow> url \<Rightarrow> PdfTemplate \<Rightarrow> metadata \<Rightarrow> unit promise" where
  "print_page h e cliArgs fileDir u tpl metadatas =
     (let filePath = pdf_filePath h cliArgs fileDir metadatas in
      then_p (logger Debug) (\<lambda>_.
        catch_p
          (then_p (page_pdf e u (pdf_options h cliArgs tpl filePath metadatas))
             (\<lambda>_. storeResult u filePath STATUS_PRINTED))
          (\<lambda>err. then_p (storeResult u filePath STATUS_ERROR) (\<lambda>_. reject err))))"

text \<open>The chain on \<^verbatim>\<open>page.goto\<close>, with its \<^verbatim>\<open>.finally\<close>.\<close>

definition goto_chain ::
  "helpers \<Rightarrow> env \<Rightarrow> ICliArguments \<Rightarrow> path \<Rightarrow> url \<Rightarrow> PdfTemplate \<Rightarrow> unit promise" where
  "goto_chain h e cliArgs fileDir u tpl =
     finally_p
       (then_p
          (then_p
             (then_p (goto e u) (\<lambda>_. page_title e u))
             (\<lambda>_. then_p (page_eval_meta e u)
                    (\<lambda>metas. resolve
                       (metadatas_read (title_at (page e u)) (document_title (page e u)) metas))))
          (\<lambda>metadatas. print_page h e cliArgs fileDir u tpl metadatas))
       (page_close e u)"

definition pageToPDF ::
  "helpers \<Rightarrow> env \<Rightarrow> ICliArguments \<Rightarrow> path \<Rightarrow> url \<Rightarrow> PdfTemplate \<Rightarrow> unit promise" where
  "pageToPDF h e cliArgs outDir u tpl =
     then_p (newPage e u) (\<lambda>_.
       let fileDir = path_join h outDir (toFilePath h u) in
       then_p
         (then_p (ensureDir e fileDir) (\<lambda>_. logger Debug))
         (\<lambda>_. goto_chain h e cliArgs fileDir u tpl))"

subsection \<open>The promise pool\<close>

text \<open>
  Modelled from the spec: the promise pool (\<^verbatim>\<open>PromisePool\<close> of the package
  \<^verbatim>\<open>@supercharge/promise-pool\<close>, whose code is not part of the sources) is "a generic
  bounded-concurrency task scheduler abstraction (worker-pool primitive with a
  configurable slot count)": items are taken in order, an item starts as soon as one of
  the \<open>n\<close> slots is free, the tasks in flight take their steps in the order the scheduler
  \<open>pk\<close> picks, "a single failure terminates that item's processing [...] it never aborts
  sibling items in the pool", and the pool's promise resolves once every item has
  settled. A task is the list of effects it performs until it settles. (With no slot,
  \<open>n = 0\<close>, no item ever starts.)
\<close>

definition can_start :: "nat \<Rightarrow> 'e list list \<Rightarrow> 'e list list \<Rightarrow> bool" where
  "can_start n pending active \<longleftrightarrow> length active < n \<and> pending \<noteq> []"

definition slot_cost :: "'e list list \<Rightarrow> 'e list list \<Rightarrow> nat" where
  "slot_cost pending active =
     sum_list (map (\<lambda>t. length t + 2) pending) + sum_list (map (\<lambda>t. length t + 1) active)"

function pool_process ::
  "nat \<Rightarrow> ('e list list \<Rightarrow> 'e list list \<Rightarrow> nat) \<Rightarrow> 'e list list \<Rightarrow> 'e list list \<Rightarrow> 'e list" where
  "pool_process n pk pending active =
     (if can_start n pending active then
        pool_process n pk (tl pending) (active @ [hd pending])
      else if active = [] then []
      else let i = pk pending active mod length active in
        case active ! i of
          [] \<Rightarrow> pool_process n pk pending (take i active @ drop (Suc i) active)
        | ev # rest \<Rightarrow> ev # pool_process n pk pending (active[i := rest]))"
  by pat_completeness auto
termination
proof (relation "measure (\<lambda>(n, pk, pending, active). slot_cost pending active)", goal_cases)
  case 1
  show ?case by simp
next
  case (2 n pk pending active)
  then obtain p ps where "pending = p # ps" by (cases pending) (auto simp: can_start_def)
  then show ?case by (simp add: slot_cost_def)
next
  case (3 n pk pending active i)
  then have i: "i < length active" by simp
  have "active = take i active @ active ! i # drop (Suc i) active"
    using i by (rule id_take_nth_drop)
  then have "sum_list (map (\<lambda>t. length t + 1) active) =
    sum_list (map (\<lambda>t. length t + 1) (take i active @ active ! i # drop (Suc i) active))"
    by simp
  then show ?case using 3(4) by (simp add: slot_cost_def)
next
  case (4 n pk pending active i ev rest)
  then have i: "i < length active" by simp
  have "active = take i active @ active ! i # drop (Suc i) active"
    using i by (rule id_take_nth_drop)
  then have "sum_list (map (\<lambda>t. length t + 1) active) =
    sum_list (map (\<lambda>t. length t + 1) (take i active @ active ! i # drop (Suc i) active))"
    by simp
  moreover have "active[i := rest] = take i active @ rest # drop (Suc i) active"
    using i by (rule upd_conv_take_nth_drop)
  ultimately show ?case using 4(4) by (simp add: slot_cost_def)
qed

declare pool_process.simps [simp del]

text \<open>\<^verbatim>\<open>PromisePool.for(items).withConcurrency(n).process(task)\<close>: the task failures are
  collected, not rethrown, so the pool's promise resolves.\<close>

definition PromisePool_process ::
  "nat \<Rightarrow> (event list list \<Rightarrow> event list list \<Rightarrow> nat) \<Rightarrow> unit promise list \<Rightarrow> unit promise" where
  "PromisePool_process n pk tasks = (pool_process n pk (map fst tasks) [], Inr ())"

subsection \<open>sitemapToPDF, processSitemap, processSitemaps\<close>

definition sitemapToPDF ::
  "helpers \<Rightarrow> env \<Rightarrow> ICliArguments \<Rightarrow> path \<Rightarrow> WebsiteSitemap \<Rightarrow> PdfTemplate \<Rightarrow> unit promise" where
  "sitemapToPDF h e cliArgs outDir sitemap tpl =
     then_p
       (then_p (ensureDir e outDir) (\<lambda>_. logger Debug))
       (\<lambda>_. then_p (logger Info) (\<lambda>_.
          PromisePool_process (processPool cliArgs) (pick e)
            (map (\<lambda>u. then_p (logger Debug) (\<lambda>_. pageToPDF h e cliArgs outDir u tpl))
               (urls sitemap))))"

definition processSitemap ::
  "helpers \<Rightarrow> env \<Rightarrow> ICliArguments \<Rightarrow> Website \<Rightarrow> WebsiteSitemap \<Rightarrow> unit promise" where
  "processSitemap h e cliArgs website sitemap =
     (if length (urls sitemap) \<noteq> 0 then
        (let outDir = path_normalize h (outputDir cliArgs) in
         sitemapToPDF h e cliArgs outDir sitemap (pdfTemplate website))
      else logger Warn)"

text \<open>Modelled from the spec: \<^verbatim>\<open>PrintResults.printResults\<close> (\<^verbatim>\<open>utils/stats\<close>) prints the
  "summary: total attempted, total PRINTED, total ERRORED".\<close>

definition printResults :: "unit promise" where
  "printResults = ([PrintResults], Inr ())"

definition processSitemaps ::
  "helpers \<Rightarrow> env \<Rightarrow> ICliArguments \<Rightarrow> Website \<Rightarrow> unit promise" where
  "processSitemaps h e cliArgs website =
     then_p (call Launch (launch_ok e) LaunchError) (\<lambda>_.
       finally_p
         (then_p
            (then_p (call BrowserVersion (version_ok e) VersionError) (\<lambda>_. logger Debug))
            (\<lambda>_. then_p (call CreateContext (context_ok e) ContextError) (\<lambda>_.
               then_p (logger Debug) (\<lambda>_.
                 PromisePool_process 1 (pick e)
                   (map (\<lambda>sitemap.
                           then_p (logger Debug)
                             (\<lambda>_. processSitemap h e cliArgs website sitemap))
                      (sitemaps website))))))
         (then_p printResults (\<lambda>_. call BrowserClose (browserClose_ok e) BrowserCloseError)))"


text \<open>
  What is observed of a run: when Node ends the process at an unhandled rejection, the
  effects up to that point.
\<close>

fun until_exit :: "event list \<Rightarrow> event list" where
  "until_exit [] = []"
| "until_exit (ProcessExit # evs) = [ProcessExit]"
| "until_exit (ev # evs) = ev # until_exit evs"

subsection \<open>What the properties speak about\<close>

text \<open>The directory of a URL's PDF, the metadata read for it and the path of its PDF.\<close>

definition fileDir_of :: "helpers \<Rightarrow> path \<Rightarrow> url \<Rightarrow> path" where
  "fileDir_of h outDir u = path_join h outDir (toFilePath h u)"

definition metadatas_of :: "env \<Rightarrow> url \<Rightarrow> metadata" where
  "metadatas_of e u =
     (case document_metas (page e u) of
        None \<Rightarrow> Map.empty
      | Some metas \<Rightarrow>
          metadatas_read (title_at (page e u)) (document_title (page e u)) (pageFunction metas))"

definition filePath_of :: "helpers \<Rightarrow> env \<Rightarrow> ICliArguments \<Rightarrow> path \<Rightarrow> url \<Rightarrow> path" where
  "filePath_of h e cliArgs outDir u =
     pdf_filePath h cliArgs (fileDir_of h outDir u) (metadatas_of e u)"

text \<open>The processing of a URL reaches \<^verbatim>\<open>page.pdf\<close>: the page opened, its directory was
  ensured, the navigation resolved, \<^verbatim>\<open>page.title()\<close> did not reject and the extraction of
  the meta tags resolved.\<close>

definition reaches_pdf :: "helpers \<Rightarrow> env \<Rightarrow> path \<Rightarrow> url \<Rightarrow> bool" where
  "reaches_pdf h e outDir u \<longleftrightarrow>
     newPage_ok (page e u) \<and> ensureDir_ok e (fileDir_of h outDir u) \<and> goto_ok (page e u) \<and>
     title_at (page e u) \<noteq> TitleRejected \<and> document_metas (page e u) \<noteq> None"

definition outcome_of ::
  "helpers \<Rightarrow> env \<Rightarrow> ICliArguments \<Rightarrow> path \<Rightarrow> url \<Rightarrow> ConversionOutcome" where
  "outcome_of h e cliArgs outDir u =
     \<lparr>o_url = u, o_filePath = filePath_of h e cliArgs outDir u,
      o_status = (if pdf_ok (page e u) then STATUS_PRINTED else STATUS_ERROR)\<rparr>"

text \<open>The effects of the pool's task for a URL, and for a sitemap.\<close>

definition url_task ::
  "helpers \<Rightarrow> env \<Rightarrow> ICliArguments \<Rightarrow> path \<Rightarrow> PdfTemplate \<Rightarrow> url \<Rightarrow> event list" where
  "url_task h e cliArgs outDir tpl =
     (\<lambda>u. Logger Debug # fst (pageToPDF h e cliArgs outDir u tpl))"

definition sitemap_task ::
  "helpers \<Rightarrow> env \<Rightarrow> ICliArguments \<Rightarrow> Website \<Rightarrow> WebsiteSitemap \<Rightarrow> event list" where
  "sitemap_task h e cliArgs website =
     (\<lambda>sitemap. Logger Debug # fst (processSitemap h e cliArgs website sitemap))"

text \<open>The ERRORED count of the summary.\<close>

definition errored_count :: "event list \<Rightarrow> nat" where
  "errored_count evs = length (filter (\<lambda>r. o_status r = STATUS_ERROR) (results_of evs))"

text \<open>The URLs of a run: those of every sitemap whose \<open>urls\<close> list is not empty.\<close>

definition attempted_urls :: "Website \<Rightarrow> url list" where
  "attempted_urls website =
     concat (map urls (filter (\<lambda>sitemap. length (urls sitemap) \<noteq> 0) (sitemaps website)))"

text \<open>The pages open after a trace: opened by \<^verbatim>\<open>newPage\<close> and not closed by
  \<^verbatim>\<open>page.close\<close>.\<close>

fun open_pages :: "event list \<Rightarrow> int" where
  "open_pages [] = 0"
| "open_pages (NewPage u ok # evs) = (if ok then 1 else 0) + open_pages evs"
| "open_pages (ClosePage u ok # evs) = open_pages evs - (if ok then 1 else 0)"
| "open_pages (_ # evs) = open_pages evs"

text \<open>The directories that exist after a trace: \<^verbatim>\<open>fs.ensureDir\<close> resolves once the
  directory exists (created, or there already).\<close>

fun dirs_on_disk :: "event list \<Rightarrow> path list" where
  "dirs_on_disk [] = []"
| "dirs_on_disk (EnsureDir d ok # evs) = (if ok then [d] else []) @ dirs_on_disk evs"
| "dirs_on_disk (_ # evs) = dirs_on_disk evs"

text \<open>The named meta tags of a page, in document order: name (not empty) and content.\<close>

fun named_metas :: "meta_tag list \<Rightarrow> (string \<times> string option) list" where
  "named_metas [] = []"
| "named_metas ((Some n, c) # metas) = (if n = [] then [] else [(n, c)]) @ named_metas metas"
| "named_metas ((None, c) # metas) = named_metas metas"

subsection \<open>Example inputs\<close>

text \<open>
  Concrete inputs on which the theorems below are exercised. The helpers are stand-ins
  of the simplest kind: the URL is its own directory, the title is its own file name
  (\<^verbatim>\<open>undefined\<close> without one), a template is followed by the title.
\<close>

definition ex_helpers :: helpers where
  "ex_helpers =
     \<lparr>toFilePath = (\<lambda>u. u),
      toFilename = (\<lambda>title safe. case title of None \<Rightarrow> ''undefined'' | Some t \<Rightarrow> t),
      interpolate = (\<lambda>template metadatas.
         template @ (case metadatas ''title'' of Some (Some t) \<Rightarrow> t | _ \<Rightarrow> [])),
      path_join = (\<lambda>a b. a @ ''/'' @ b),
      path_normalize = (\<lambda>p. p)\<rparr>"

definition ex_cliArgs :: ICliArguments where
  "ex_cliArgs =
     \<lparr>outputDir = ''out'', processPool = 1, safeTitle = False, displayHeaderFooter = True,
      marginTop = ''50px'', marginBottom = ''50px'', marginLeft = ''0px'', marginRight = ''0px''\<rparr>"

definition ex_tpl :: PdfTemplate where
  "ex_tpl = \<lparr>header = ''H'', footer = ''F''\<rparr>"

definition ex_page :: page_env where
  "ex_page =
     \<lparr>newPage_ok = True, goto_ok = True, document_title = ''Home'',
      title_at = TitleBeforeMetas,
      document_metas = Some [(Some ''author'', Some ''Ann''), (None, Some ''x'')],
      pdf_ok = True, close_ok = True\<rparr>"

definition ex_env :: env where
  "ex_env =
     \<lparr>launch_ok = True, version_ok = True, context_ok = True, browserClose_ok = True,
      ensureDir_ok = (\<lambda>d. True), page = (\<lambda>u. ex_page), pick = (\<lambda>pending active. 0)\<rparr>"

definition ex_sitemap :: WebsiteSitemap where
  "ex_sitemap = \<lparr>rootUrl = ''s'', urls = [''a'', ''b'']\<rparr>"

definition ex_website :: Website where
  "ex_website = \<lparr>sitemaps = [ex_sitemap], pdfTemplate = ex_tpl\<rparr>"

text \<open>
  Environments in which one call fails: the navigation to \<open>''a''\<close>, the rendering of
  \<open>''a''\<close>, the creation of every directory but the output directory, the launch of the
  browser; and a page with a meta tag whose name is empty and one whose name is
  \<open>''title''\<close>.
\<close>

definition ex_website2 :: Website where
  "ex_website2 =
     \<lparr>sitemaps = [ex_sitemap, \<lparr>rootUrl = ''t'', urls = [''c'']\<rparr>], pdfTemplate = ex_tpl\<rparr>"

definition ex_env_goto_fails :: env where
  "ex_env_goto_fails =
     ex_env\<lparr>page := (\<lambda>u. if u = ''a'' then ex_page\<lparr>goto_ok := False\<rparr> else ex_page)\<rparr>"

definition ex_env_pdf_fails :: env where
  "ex_env_pdf_fails =
     ex_env\<lparr>page := (\<lambda>u. if u = ''a'' then ex_page\<lparr>pdf_ok := False\<rparr> else ex_page)\<rparr>"

definition ex_env_no_page_dir :: env where
  "ex_env_no_page_dir = ex_env\<lparr>ensureDir_ok := (\<lambda>d. d = ''out'')\<rparr>"

definition ex_env_title_rejects :: env where
  "ex_env_title_rejects =
     ex_env\<lparr>page := (\<lambda>u. if u = ''a'' then ex_page\<lparr>title_at := TitleRejected\<rparr> else ex_page)\<rparr>"


definition ex_env_unnamed_meta :: env where
  "ex_env_unnamed_meta =
     ex_env\<lparr>page := (\<lambda>u. ex_page\<lparr>document_metas :=
       Some [(Some [], Some ''x''), (Some ''title'', Some ''X'')]\<rparr>)\<rparr>"

section \<open>The promise pool\<close>

text \<open>One step of the pool, by the case it is in.\<close>

lemma pool_start:
  "can_start n (p # ps) active \<Longrightarrow>
   pool_process n pk (p # ps) active = pool_process n pk ps (active @ [p])"
  by (subst pool_process.simps) simp

lemma pool_drained:
  "\<not> can_start n pending active \<Longrightarrow> active = [] \<Longrightarrow> pool_process n pk pending active = []"
  by (subst pool_process.simps) simp

lemma pool_settle:
  "\<not> can_start n pending active \<Longrightarrow> active \<noteq> [] \<Longrightarrow>
   i = pk pending active mod length active \<Longrightarrow> active ! i = [] \<Longrightarrow>
   pool_process n pk pending active =
     pool_process n pk pending (take i active @ drop (Suc i) active)"
  by (subst pool_process.simps) (simp add: Let_def)

lemma pool_step:
  "\<not> can_start n pending active \<Longrightarrow> active \<noteq> [] \<Longrightarrow>
   i = pk pending active mod length active \<Longrightarrow> active ! i = ev # rest \<Longrightarrow>
   pool_process n pk pending active = ev # pool_process n pk pending (active[i := rest])"
  by (subst pool_process.simps) (simp add: Let_def)

lemma pool_process_serial:
  "length active \<le> 1 \<Longrightarrow> pool_process 1 pk pending active = concat active @ concat pending"
proof (induction "1::nat" pk pending active rule: pool_process.induct)
  case (1 pk pending active)
  show ?case
  proof (cases "can_start 1 pending active")
    case True
    then obtain p ps where p: "pending = p # ps" by (cases pending) (auto simp: can_start_def)
    from True have a: "active = []" by (simp add: can_start_def)
    have step: "pool_process 1 pk pending active = pool_process 1 pk ps (active @ [p])"
      unfolding p by (rule pool_start[OF True[unfolded p]])
    from "1.hyps"(1)[OF True] a p have "pool_process 1 pk ps (active @ [p]) = p @ concat ps"
      by simp
    then show ?thesis unfolding step by (simp add: a p)
  next
    case False
    show ?thesis
    proof (cases "active = []")
      case True
      with False have "pending = []" by (simp add: can_start_def)
      then show ?thesis unfolding pool_drained[OF False True] by (simp add: True)
    next
      case ne: False
      with "1.prems" obtain t where t: "active = [t]" by (cases active) auto
      define i where "i = pk pending active mod length active"
      have i0: "i = 0" by (simp add: i_def t)
      show ?thesis
      proof (cases "active ! i")
        case Nil
        note step = pool_settle[where pk=pk, OF False ne i_def Nil]
        from Nil have tn: "t = []" by (simp add: i0 t)
        from "1.hyps"(2)[OF False ne i_def Nil]
        have "pool_process 1 pk pending (take i active @ drop (Suc i) active) = concat pending"
          by (simp add: i0 t)
        then show ?thesis unfolding step by (simp add: t tn)
      next
        case (Cons ev rest)
        note step = pool_step[where pk=pk, OF False ne i_def Cons]
        from Cons have tn: "t = ev # rest" by (simp add: i0 t)
        from "1.hyps"(3)[OF False ne i_def Cons]
        have "pool_process 1 pk pending (active[i := rest]) = rest @ concat pending"
          by (simp add: i0 t)
        then show ?thesis unfolding step by (simp add: t tn)
      qed
    qed
  qed
qed

lemma mset_concat_remove_nth:
  "i < length xs \<Longrightarrow> xs ! i = [] \<Longrightarrow>
   mset (concat (take i xs @ drop (Suc i) xs)) = mset (concat xs)"
proof -
  assume i: "i < length xs" and e: "xs ! i = []"
  have "concat xs = concat (take i xs @ xs ! i # drop (Suc i) xs)"
    using id_take_nth_drop[OF i] by simp
  then show ?thesis using e by simp
qed

lemma mset_concat_update:
  "i < length xs \<Longrightarrow> xs ! i = ev # rest \<Longrightarrow>
   add_mset ev (mset (concat (xs[i := rest]))) = mset (concat xs)"
proof -
  assume i: "i < length xs" and e: "xs ! i = ev # rest"
  have "concat xs = concat (take i xs @ xs ! i # drop (Suc i) xs)"
    using id_take_nth_drop[OF i] by simp
  moreover have "xs[i := rest] = take i xs @ rest # drop (Suc i) xs"
    using i by (rule upd_conv_take_nth_drop)
  ultimately show ?thesis using e by simp
qed

lemma mset_pool_process:
  "1 \<le> n \<Longrightarrow>
   mset (pool_process n pk pending active) = mset (concat active) + mset (concat pending)"
proof (induction n pk pending active rule: pool_process.induct)
  case (1 n pk pending active)
  show ?case
  proof (cases "can_start n pending active")
    case True
    then obtain p ps where p: "pending = p # ps" by (cases pending) (auto simp: can_start_def)
    have step: "pool_process n pk pending active = pool_process n pk ps (active @ [p])"
      unfolding p by (rule pool_start[OF True[unfolded p]])
    from "1.IH"(1)[OF True "1.prems"]
    have "mset (pool_process n pk ps (active @ [p])) = mset (concat (active @ [p])) + mset (concat ps)"
      by (simp add: p)
    then show ?thesis unfolding step by (simp add: p)
  next
    case False
    show ?thesis
    proof (cases "active = []")
      case True
      with False "1.prems" have "pending = []" by (simp add: can_start_def)
      then show ?thesis unfolding pool_drained[OF False True] by (simp add: True)
    next
      case ne: False
      define i where "i = pk pending active mod length active"
      have i: "i < length active" using ne by (simp add: i_def)
      show ?thesis
      proof (cases "active ! i")
        case Nil
        note step = pool_settle[where pk=pk, OF False ne i_def Nil]
        from "1.IH"(2)[OF False ne i_def Nil "1.prems"] mset_concat_remove_nth[OF i Nil]
        show ?thesis unfolding step by simp
      next
        case (Cons ev rest)
        note step = pool_step[where pk=pk, OF False ne i_def Cons]
        from "1.IH"(3)[OF False ne i_def Cons "1.prems"] mset_concat_update[OF i Cons]
        have "add_mset ev (mset (pool_process n pk pending (active[i := rest]))) =
              mset (concat active) + mset (concat pending)"
          by (metis union_mset_add_mset_left)
        then show ?thesis unfolding step by simp
      qed
    qed
  qed
qed



text \<open>With one slot the pool is a loop: the tasks run one after the other, in order.\<close>

lemma pool_process_one: "n = 1 \<Longrightarrow> pool_process n pk pending [] = concat pending"
  using pool_process_serial[of "[]" pk pending] by simp

section \<open>One URL: pageToPDF\<close>

lemmas promise_defs = then_p_def catch_p_def finally_p_def call_def logger_def resolve_def
  reject_def storeResult_def newPage_def ensureDir_def goto_def page_pdf_def page_close_def
  page_eval_meta_def page_title_def

lemmas ex_defs = ex_helpers_def ex_cliArgs_def ex_tpl_def ex_page_def ex_env_def ex_sitemap_def
  ex_website_def

lemmas ex_env_defs = ex_env_goto_fails_def ex_env_pdf_fails_def ex_env_no_page_dir_def

text \<open>The six ways through \<^verbatim>\<open>pageToPDF\<close>: the trace and the settled promise of each.\<close>

lemma pageToPDF_newPage_fails:
  "\<not> newPage_ok (page e u) \<Longrightarrow>
   pageToPDF h e cliArgs outDir u tpl = ([NewPage u False], Inl NewPageError)"
  by (simp add: pageToPDF_def promise_defs)

lemma pageToPDF_ensureDir_fails:
  "newPage_ok (page e u) \<Longrightarrow> \<not> ensureDir_ok e (fileDir_of h outDir u) \<Longrightarrow>
   pageToPDF h e cliArgs outDir u tpl =
     ([NewPage u True, EnsureDir (fileDir_of h outDir u) False], Inl FsError)"
  by (simp add: pageToPDF_def promise_defs fileDir_of_def Let_def)

lemma pageToPDF_goto_fails:
  "newPage_ok (page e u) \<Longrightarrow> ensureDir_ok e (fileDir_of h outDir u) \<Longrightarrow> \<not> goto_ok (page e u) \<Longrightarrow>
   pageToPDF h e cliArgs outDir u tpl =
     ([NewPage u True, EnsureDir (fileDir_of h outDir u) True, Logger Debug, Goto u False,
       ClosePage u (close_ok (page e u))],
      if close_ok (page e u) then Inl NavigationError else Inl PageCloseError)"
  by (simp add: pageToPDF_def goto_chain_def promise_defs fileDir_of_def Let_def)

lemma pageToPDF_title_rejects:
  "newPage_ok (page e u) \<Longrightarrow> ensureDir_ok e (fileDir_of h outDir u) \<Longrightarrow> goto_ok (page e u) \<Longrightarrow>
   title_at (page e u) = TitleRejected \<Longrightarrow>
   pageToPDF h e cliArgs outDir u tpl =
     ([NewPage u True, EnsureDir (fileDir_of h outDir u) True, Logger Debug, Goto u True,
       ProcessExit, ClosePage u (close_ok (page e u))],
      if close_ok (page e u) then Inl UnhandledRejection else Inl PageCloseError)"
  by (simp add: pageToPDF_def goto_chain_def promise_defs fileDir_of_def Let_def)

lemma pageToPDF_eval_fails:
  "newPage_ok (page e u) \<Longrightarrow> ensureDir_ok e (fileDir_of h outDir u) \<Longrightarrow> goto_ok (page e u) \<Longrightarrow>
   title_at (page e u) \<noteq> TitleRejected \<Longrightarrow> document_metas (page e u) = None \<Longrightarrow>
   pageToPDF h e cliArgs outDir u tpl =
     ([NewPage u True, EnsureDir (fileDir_of h outDir u) True, Logger Debug, Goto u True,
       EvalMeta u False, ClosePage u (close_ok (page e u))],
      if close_ok (page e u) then Inl EvalError else Inl PageCloseError)"
  by (simp add: pageToPDF_def goto_chain_def promise_defs fileDir_of_def Let_def)

lemma pageToPDF_reaches_pdf:
  "reaches_pdf h e outDir u \<Longrightarrow>
   pageToPDF h e cliArgs outDir u tpl =
     ([NewPage u True, EnsureDir (fileDir_of h outDir u) True, Logger Debug, Goto u True,
       EvalMeta u True, Logger Debug,
       PrintPdf u (pdf_options h cliArgs tpl (filePath_of h e cliArgs outDir u) (metadatas_of e u))
         (pdf_ok (page e u)),
       StoreResult u (filePath_of h e cliArgs outDir u)
         (if pdf_ok (page e u) then STATUS_PRINTED else STATUS_ERROR),
       ClosePage u (close_ok (page e u))],
      if \<not> close_ok (page e u) then Inl PageCloseError
      else if pdf_ok (page e u) then Inr () else Inl RenderError)"
  by (auto simp add: reaches_pdf_def pageToPDF_def goto_chain_def print_page_def promise_defs
      fileDir_of_def filePath_of_def metadatas_of_def Let_def)

lemma pageToPDF_stops_early:
  "\<not> reaches_pdf h e outDir u \<Longrightarrow>
   results_of (fst (pageToPDF h e cliArgs outDir u tpl)) = [] \<and>
   (\<exists>err. snd (pageToPDF h e cliArgs outDir u tpl) = Inl err)"
proof -
  assume n: "\<not> reaches_pdf h e outDir u"
  consider (a) "\<not> newPage_ok (page e u)"
    | (b) "newPage_ok (page e u)" "\<not> ensureDir_ok e (fileDir_of h outDir u)"
    | (c) "newPage_ok (page e u)" "ensureDir_ok e (fileDir_of h outDir u)" "\<not> goto_ok (page e u)"
    | (t) "newPage_ok (page e u)" "ensureDir_ok e (fileDir_of h outDir u)" "goto_ok (page e u)"
          "title_at (page e u) = TitleRejected"
    | (d) "newPage_ok (page e u)" "ensureDir_ok e (fileDir_of h outDir u)" "goto_ok (page e u)"
          "title_at (page e u) \<noteq> TitleRejected" "document_metas (page e u) = None"
    using n by (auto simp: reaches_pdf_def)
  then show ?thesis
  proof cases
    case a then show ?thesis by (simp add: pageToPDF_newPage_fails)
  next
    case b then show ?thesis by (simp add: pageToPDF_ensureDir_fails)
  next
    case c then show ?thesis by (simp add: pageToPDF_goto_fails)
  next
    case t then show ?thesis by (simp add: pageToPDF_title_rejects)
  next
    case d then show ?thesis by (simp add: pageToPDF_eval_fails)
  qed
qed

lemma results_of_pageToPDF:
  "results_of (fst (pageToPDF h e cliArgs outDir u tpl)) =
     (if reaches_pdf h e outDir u then [outcome_of h e cliArgs outDir u] else [])"
  by (simp add: pageToPDF_reaches_pdf pageToPDF_stops_early outcome_of_def)

lemma resolved_pageToPDF:
  "snd (pageToPDF h e cliArgs outDir u tpl) = Inr () \<longleftrightarrow>
     reaches_pdf h e outDir u \<and> pdf_ok (page e u) \<and> close_ok (page e u)"
proof (cases "reaches_pdf h e outDir u")
  case True
  then show ?thesis by (simp add: pageToPDF_reaches_pdf)
next
  case False
  from pageToPDF_stops_early[OF False, of cliArgs tpl] False show ?thesis by auto
qed

lemma results_of_append: "results_of (xs @ ys) = results_of xs @ results_of ys"
  by (induction xs rule: results_of.induct) simp_all

text \<open>
  C6 (the code does otherwise): the claim is that the page opened for a URL is closed on
  every exit path, also when the creation of the directory fails. \<^verbatim>\<open>.finally\<close> with
  \<^verbatim>\<open>page.close()\<close> is attached to the chain on \<^verbatim>\<open>page.goto\<close>, which only starts
  once \<^verbatim>\<open>fs.ensureDir(fileDir)\<close> has resolved: when it rejects, the page is opened and
  never closed. Here the directory \<open>''out/a''\<close> cannot be created, and one page is left
  open.
\<close>
theorem pageToPDF_leaves_page_open:
  "pageToPDF ex_helpers ex_env_no_page_dir ex_cliArgs ''out'' ''a'' ex_tpl =
     ([NewPage ''a'' True, EnsureDir ''out/a'' False], Inl FsError) \<and>
   open_pages (fst (pageToPDF ex_helpers ex_env_no_page_dir ex_cliArgs ''out'' ''a'' ex_tpl)) = 1"
  by (simp add: pageToPDF_def promise_defs ex_defs ex_env_defs Let_def)

text \<open>
  C10: for every URL handed to \<^verbatim>\<open>pageToPDF\<close>, the directory derived from the URL
  (\<open>outputDir\<close> joined with \<open>toFilePath url\<close>) is there before the navigation is
  attempted: whenever \<^verbatim>\<open>page.goto\<close> is called, resolving or not, what came before it is
  the opening of the page and the resolved \<^verbatim>\<open>ensureDir\<close> of that directory, so the
  directory exists then, and at the end of the processing whatever the navigation and
  the rendering did.
\<close>
theorem pageToPDF_ensures_dir_before_goto:
  "fst (pageToPDF h e cliArgs outDir u tpl) = before @ Goto u ok # after \<Longrightarrow>
   before = [NewPage u True, EnsureDir (path_join h outDir (toFilePath h u)) True, Logger Debug] \<and>
   path_join h outDir (toFilePath h u) \<in> set (dirs_on_disk before) \<and>
   path_join h outDir (toFilePath h u) \<in> set (dirs_on_disk (fst (pageToPDF h e cliArgs outDir u tpl)))"
proof -
  assume eq: "fst (pageToPDF h e cliArgs outDir u tpl) = before @ Goto u ok # after"
  let ?d = "fileDir_of h outDir u"
  consider (a) "\<not> newPage_ok (page e u)"
    | (b) "newPage_ok (page e u)" "\<not> ensureDir_ok e ?d"
    | (c) "newPage_ok (page e u)" "ensureDir_ok e ?d" "\<not> goto_ok (page e u)"
    | (t) "newPage_ok (page e u)" "ensureDir_ok e ?d" "goto_ok (page e u)"
          "title_at (page e u) = TitleRejected"
    | (d) "newPage_ok (page e u)" "ensureDir_ok e ?d" "goto_ok (page e u)"
          "title_at (page e u) \<noteq> TitleRejected" "document_metas (page e u) = None"
    | (r) "reaches_pdf h e outDir u"
    by (auto simp: reaches_pdf_def)
  then have "before = [NewPage u True, EnsureDir ?d True, Logger Debug]"
  proof cases
    case a with eq show ?thesis
      by (auto simp: pageToPDF_newPage_fails Cons_eq_append_conv)
  next
    case b with eq show ?thesis
      by (auto simp: pageToPDF_ensureDir_fails Cons_eq_append_conv)
  next
    case c with eq show ?thesis
      by (auto simp: pageToPDF_goto_fails Cons_eq_append_conv)
  next
    case t with eq show ?thesis
      by (auto simp: pageToPDF_title_rejects Cons_eq_append_conv)
  next
    case d with eq show ?thesis
      by (auto simp: pageToPDF_eval_fails Cons_eq_append_conv)
  next
    case r with eq show ?thesis
      by (auto simp: pageToPDF_reaches_pdf Cons_eq_append_conv)
  qed
  then show ?thesis using eq by (simp add: fileDir_of_def)
qed

text \<open>A URL whose navigation fails: its directory is on disk all the same.\<close>

theorem pageToPDF_ensures_dir_before_goto_witness:
  "fst (pageToPDF ex_helpers (ex_env\<lparr>page := (\<lambda>u. ex_page\<lparr>goto_ok := False\<rparr>)\<rparr>) ex_cliArgs ''out'' ''a'' ex_tpl) =
     [NewPage ''a'' True, EnsureDir ''out/a'' True, Logger Debug] @ Goto ''a'' False # [ClosePage ''a'' True] \<and>
   ''out/a'' \<in> set (dirs_on_disk
      (fst (pageToPDF ex_helpers (ex_env\<lparr>page := (\<lambda>u. ex_page\<lparr>goto_ok := False\<rparr>)\<rparr>) ex_cliArgs ''out'' ''a'' ex_tpl)))"
proof -
  have eq: "fst (pageToPDF ex_helpers (ex_env\<lparr>page := (\<lambda>u. ex_page\<lparr>goto_ok := False\<rparr>)\<rparr>) ex_cliArgs ''out'' ''a'' ex_tpl) =
     [NewPage ''a'' True, EnsureDir ''out/a'' True, Logger Debug] @ Goto ''a'' False # [ClosePage ''a'' True]"
    by (simp add: pageToPDF_def goto_chain_def promise_defs ex_defs Let_def)
  from pageToPDF_ensures_dir_before_goto[OF eq] eq show ?thesis by (simp add: ex_helpers_def)
qed

text \<open>The metadata the last callback reads: the named meta tags, the last of a name winning.\<close>

lemma store_metas_Cons:
  "store_metas m (pageFunction (meta # metas)) =
     store_metas (case fst meta of
                    None \<Rightarrow> m
                  | Some n \<Rightarrow> if n = [] then m else m(n \<mapsto> snd meta))
       (pageFunction metas)"
  by (simp add: store_metas_def pageFunction_def split: option.splits)

lemma store_metas_named:
  "store_metas m (pageFunction metas) n =
     (case map_of (rev (named_metas metas)) n of None \<Rightarrow> m n | Some c \<Rightarrow> Some c)"
proof (induction metas arbitrary: m)
  case Nil
  show ?case by (simp add: store_metas_def pageFunction_def)
next
  case (Cons meta metas)
  obtain nm c where meta: "meta = (nm, c)" by (cases meta)
  show ?case
  proof (cases nm)
    case None
    then show ?thesis unfolding store_metas_Cons meta by (simp add: Cons.IH)
  next
    case (Some name)
    then show ?thesis unfolding store_metas_Cons meta
      by (simp add: Cons.IH map_add_def split: option.splits)
  qed
qed

text \<open>
  C8 (as stated, refuted): the claim is that the page title and every meta tag with a
  non-null name are stored before the templates are interpolated and the file name is
  derived. A tag whose name is the empty string has a name that is not \<^verbatim>\<open>null\<close>, and
  \<^verbatim>\<open>metaName ? [...] : null\<close> drops it; and a tag named \<open>''title''\<close> takes the place
  of the page title, so that the file is named after the tag.
\<close>

theorem pageFunction_skips_empty_name:
  "document_title (page ex_env_unnamed_meta ''a'') = ''Home'' \<and>
   document_metas (page ex_env_unnamed_meta ''a'') =
     Some [(Some [], Some ''x''), (Some ''title'', Some ''X'')] \<and>
   pageFunction [(Some [], Some ''x''), (Some ''title'', Some ''X'')] =
     [None, Some (''title'', Some ''X'')] \<and>
   metadatas_of ex_env_unnamed_meta ''a'' [] = None \<and>
   metadatas_of ex_env_unnamed_meta ''a'' ''title'' = Some (Some ''X'') \<and>
   filePath_of ex_helpers ex_env_unnamed_meta ex_cliArgs ''out'' ''a'' = ''out/a/X.pdf''"
  by (simp add: filePath_of_def pdf_filePath_def fileDir_of_def get_title_def metadatas_of_def
      metadatas_read_def pageFunction_def store_metas_def ex_env_unnamed_meta_def ex_env_def
      ex_page_def ex_helpers_def ex_cliArgs_def)

text \<open>
  C8 (amended): for every URL whose navigation and meta extraction succeeded, the trace
  is: navigation, extraction of the meta tags, then \<^verbatim>\<open>page.pdf\<close> with the header and
  footer interpolated with the metadata read at that point and the file named after its
  \<open>''title''\<close> entry. That metadata holds, for every name but \<open>''title''\<close>, the content
  of the last meta tag with that (non-empty) name and nothing else; and when the title
  callback ran before the meta tags were stored, its \<open>''title''\<close> entry is the page
  title, unless a meta tag is named \<open>''title''\<close>. (When the title callback runs later,
  nothing is said.)
\<close>

theorem pageToPDF_reads_metadata_then_prints:
  assumes "reaches_pdf h e outDir u" and "document_metas (page e u) = Some metas"
  shows "fst (pageToPDF h e cliArgs outDir u tpl) =
     [NewPage u True, EnsureDir (fileDir_of h outDir u) True, Logger Debug, Goto u True,
      EvalMeta u True, Logger Debug,
      PrintPdf u
        \<lparr>pdf_path = path_join h (fileDir_of h outDir u)
            (toFilename h (get_title (metadatas_of e u)) (safeTitle cliArgs) @ ''.pdf''),
         pdf_displayHeaderFooter = displayHeaderFooter cliArgs,
         headerTemplate = interpolate h (header tpl) (metadatas_of e u),
         footerTemplate = interpolate h (footer tpl) (metadatas_of e u),
         margin_top = marginTop cliArgs, margin_bottom = marginBottom cliArgs,
         margin_left = marginLeft cliArgs, margin_right = marginRight cliArgs\<rparr>
        (pdf_ok (page e u)),
      StoreResult u (filePath_of h e cliArgs outDir u)
        (if pdf_ok (page e u) then STATUS_PRINTED else STATUS_ERROR),
      ClosePage u (close_ok (page e u))] \<and>
   (\<forall>n. n \<noteq> ''title'' \<longrightarrow> metadatas_of e u n = map_of (rev (named_metas metas)) n) \<and>
   (title_at (page e u) = TitleBeforeMetas \<longrightarrow>
      metadatas_of e u ''title'' =
        (case map_of (rev (named_metas metas)) ''title'' of
           None \<Rightarrow> Some (Some (document_title (page e u)))
         | Some c \<Rightarrow> Some c))"
proof (intro conjI allI impI)
  show "fst (pageToPDF h e cliArgs outDir u tpl) =
     [NewPage u True, EnsureDir (fileDir_of h outDir u) True, Logger Debug, Goto u True,
      EvalMeta u True, Logger Debug,
      PrintPdf u
        \<lparr>pdf_path = path_join h (fileDir_of h outDir u)
            (toFilename h (get_title (metadatas_of e u)) (safeTitle cliArgs) @ ''.pdf''),
         pdf_displayHeaderFooter = displayHeaderFooter cliArgs,
         headerTemplate = interpolate h (header tpl) (metadatas_of e u),
         footerTemplate = interpolate h (footer tpl) (metadatas_of e u),
         margin_top = marginTop cliArgs, margin_bottom = marginBottom cliArgs,
         margin_left = marginLeft cliArgs, margin_right = marginRight cliArgs\<rparr>
        (pdf_ok (page e u)),
      StoreResult u (filePath_of h e cliArgs outDir u)
        (if pdf_ok (page e u) then STATUS_PRINTED else STATUS_ERROR),
      ClosePage u (close_ok (page e u))]"
    by (simp add: pageToPDF_reaches_pdf[OF assms(1)] pdf_options_def filePath_of_def pdf_filePath_def)
next
  fix n :: string
  assume "n \<noteq> ''title''"
  then show "metadatas_of e u n = map_of (rev (named_metas metas)) n"
    by (cases "title_at (page e u)")
       (simp_all add: metadatas_of_def metadatas_read_def assms(2) store_metas_named
          split: option.splits)
next
  assume "title_at (page e u) = TitleBeforeMetas"
  then show "metadatas_of e u ''title'' =
        (case map_of (rev (named_metas metas)) ''title'' of
           None \<Rightarrow> Some (Some (document_title (page e u)))
         | Some c \<Rightarrow> Some c)"
    by (simp add: metadatas_of_def metadatas_read_def assms(2) store_metas_named
        split: option.splits)
qed

text \<open>The page \<open>''a''\<close> with title \<open>''Home''\<close> and one named meta tag.\<close>

theorem pageToPDF_reads_metadata_then_prints_witness:
  "reaches_pdf ex_helpers ex_env ''out'' ''a'' \<and>
   document_metas (page ex_env ''a'') = Some [(Some ''author'', Some ''Ann''), (None, Some ''x'')] \<and>
   title_at (page ex_env ''a'') = TitleBeforeMetas \<and>
   metadatas_of ex_env ''a'' ''author'' = Some (Some ''Ann'') \<and>
   metadatas_of ex_env ''a'' ''title'' = Some (Some ''Home'') \<and>
   fst (pageToPDF ex_helpers ex_env ex_cliArgs ''out'' ''a'' ex_tpl) =
     [NewPage ''a'' True, EnsureDir ''out/a'' True, Logger Debug, Goto ''a'' True,
      EvalMeta ''a'' True, Logger Debug,
      PrintPdf ''a''
        \<lparr>pdf_path = ''out/a/Home.pdf'', pdf_displayHeaderFooter = True,
         headerTemplate = ''HHome'', footerTemplate = ''FHome'',
         margin_top = ''50px'', margin_bottom = ''50px'',
         margin_left = ''0px'', margin_right = ''0px''\<rparr> True,
      StoreResult ''a'' ''out/a/Home.pdf'' STATUS_PRINTED,
      ClosePage ''a'' True]"
proof -
  have h1: "reaches_pdf ex_helpers ex_env ''out'' ''a''"
    by (simp add: reaches_pdf_def ex_defs)
  have h2: "document_metas (page ex_env ''a'') = Some [(Some ''author'', Some ''Ann''), (None, Some ''x'')]"
    by (simp add: ex_defs)
  have t: "title_at (page ex_env ''a'') = TitleBeforeMetas" by (simp add: ex_defs)
  have p: "pdf_ok (page ex_env ''a'')" "close_ok (page ex_env ''a'')" "document_title (page ex_env ''a'') = ''Home''"
    by (simp_all add: ex_defs)
  note inst = pageToPDF_reads_metadata_then_prints[OF h1 h2, of ex_cliArgs ex_tpl]
  from inst have au: "metadatas_of ex_env ''a'' ''author'' = Some (Some ''Ann'')" by simp
  from inst t p have ti: "metadatas_of ex_env ''a'' ''title'' = Some (Some ''Home'')" by simp
  have g: "get_title (metadatas_of ex_env ''a'') = Some ''Home''" by (simp add: get_title_def ti)
  have fp: "filePath_of ex_helpers ex_env ex_cliArgs ''out'' ''a'' = ''out/a/Home.pdf''"
    by (simp add: filePath_of_def pdf_filePath_def fileDir_of_def g ex_helpers_def ex_cliArgs_def)
  from inst have "fst (pageToPDF ex_helpers ex_env ex_cliArgs ''out'' ''a'' ex_tpl) =
     [NewPage ''a'' True, EnsureDir (fileDir_of ex_helpers ''out'' ''a'') True, Logger Debug,
      Goto ''a'' True, EvalMeta ''a'' True, Logger Debug,
      PrintPdf ''a''
        \<lparr>pdf_path = path_join ex_helpers (fileDir_of ex_helpers ''out'' ''a'')
            (toFilename ex_helpers (Some ''Home'') (safeTitle ex_cliArgs) @ ''.pdf''),
         pdf_displayHeaderFooter = displayHeaderFooter ex_cliArgs,
         headerTemplate = interpolate ex_helpers (header ex_tpl) (metadatas_of ex_env ''a''),
         footerTemplate = interpolate ex_helpers (footer ex_tpl) (metadatas_of ex_env ''a''),
         margin_top = marginTop ex_cliArgs, margin_bottom = marginBottom ex_cliArgs,
         margin_left = marginLeft ex_cliArgs, margin_right = marginRight ex_cliArgs\<rparr>
        True,
      StoreResult ''a'' ''out/a/Home.pdf'' STATUS_PRINTED,
      ClosePage ''a'' True]"
    by (simp add: p g fp)
  then have "fst (pageToPDF ex_helpers ex_env ex_cliArgs ''out'' ''a'' ex_tpl) =
     [NewPage ''a'' True, EnsureDir ''out/a'' True, Logger Debug, Goto ''a'' True,
      EvalMeta ''a'' True, Logger Debug,
      PrintPdf ''a''
        \<lparr>pdf_path = ''out/a/Home.pdf'', pdf_displayHeaderFooter = True,
         headerTemplate = ''HHome'', footerTemplate = ''FHome'',
         margin_top = ''50px'', margin_bottom = ''50px'',
         margin_left = ''0px'', margin_right = ''0px''\<rparr> True,
      StoreResult ''a'' ''out/a/Home.pdf'' STATUS_PRINTED,
      ClosePage ''a'' True]"
    by (simp add: ti fileDir_of_def ex_helpers_def ex_cliArgs_def ex_tpl_def)
  with h1 h2 t au ti show ?thesis by simp
qed

section \<open>One sitemap: sitemapToPDF and processSitemap\<close>

text \<open>The stored results of a trace depend on its events only, not on their order.\<close>

lemma mset_results_of: "mset (results_of evs) = (\<Sum>ev\<in>#mset evs. mset (results_of [ev]))"
proof (induction evs)
  case Nil
  show ?case by simp
next
  case (Cons ev evs)
  have l: "mset (results_of (ev # evs)) = mset (results_of [ev]) + mset (results_of evs)"
    by (cases ev) simp_all
  have r: "(\<Sum>x\<in>#mset (ev # evs). mset (results_of [x])) =
           mset (results_of [ev]) + (\<Sum>x\<in>#mset evs. mset (results_of [x]))"
    by simp
  have "mset (results_of (ev # evs)) = mset (results_of [ev]) + mset (results_of evs)"
    by (rule l)
  also have "\<dots> = mset (results_of [ev]) + (\<Sum>x\<in>#mset evs. mset (results_of [x]))"
    by (simp only: Cons.IH)
  also have "\<dots> = (\<Sum>x\<in>#mset (ev # evs). mset (results_of [x]))"
    by (rule r[symmetric])
  finally show ?case .
qed

lemma mset_results_of_cong:
  assumes "mset xs = mset ys"
  shows "mset (results_of xs) = mset (results_of ys)"
proof -
  have "mset (results_of xs) = (\<Sum>ev\<in>#mset xs. mset (results_of [ev]))"
    by (rule mset_results_of)
  also have "\<dots> = (\<Sum>ev\<in>#mset ys. mset (results_of [ev]))"
    by (simp only: assms)
  also have "\<dots> = mset (results_of ys)"
    by (rule mset_results_of[symmetric])
  finally show ?thesis .
qed

lemma results_of_concat: "results_of (concat xss) = concat (map results_of xss)"
  by (induction xss) (simp_all add: results_of_append)

text \<open>The trace of \<^verbatim>\<open>sitemapToPDF\<close>: the output directory, then the pool over the URLs.\<close>

lemma sitemapToPDF_unfold:
  "ensureDir_ok e outDir \<Longrightarrow>
   sitemapToPDF h e cliArgs outDir sitemap tpl =
     ([EnsureDir outDir True, Logger Debug, Logger Info] @
      pool_process (processPool cliArgs) (pick e) (map (url_task h e cliArgs outDir tpl) (urls sitemap)) [],
      Inr ())"
  by (simp add: sitemapToPDF_def PromisePool_process_def then_p_def logger_def ensureDir_def
      call_def url_task_def comp_def)



lemma sitemapToPDF_permutation:
  "1 \<le> processPool cliArgs \<Longrightarrow> ensureDir_ok e outDir \<Longrightarrow>
   mset (fst (sitemapToPDF h e cliArgs outDir sitemap tpl)) =
     mset ([EnsureDir outDir True, Logger Debug, Logger Info] @
           concat (map (url_task h e cliArgs outDir tpl) (urls sitemap)))"
  by (simp add: sitemapToPDF_unfold mset_pool_process)


lemma results_of_url_task:
  "results_of (url_task h e cliArgs outDir tpl u) =
     (if reaches_pdf h e outDir u then [outcome_of h e cliArgs outDir u] else [])"
  by (simp add: url_task_def results_of_pageToPDF)

lemma concat_map_if_filter:
  "concat (map (\<lambda>x. if P x then [f x] else []) xs) = map f (filter P xs)"
  by (induction xs) simp_all

lemma results_of_sitemapToPDF:
  assumes "1 \<le> processPool cliArgs" and "ensureDir_ok e outDir"
  shows "mset (results_of (fst (sitemapToPDF h e cliArgs outDir sitemap tpl))) =
           mset (map (outcome_of h e cliArgs outDir) (filter (reaches_pdf h e outDir) (urls sitemap)))"
proof -
  let ?seq = "[EnsureDir outDir True, Logger Debug, Logger Info] @
              concat (map (url_task h e cliArgs outDir tpl) (urls sitemap))"
  have "mset (results_of (fst (sitemapToPDF h e cliArgs outDir sitemap tpl))) = mset (results_of ?seq)"
    by (rule mset_results_of_cong) (rule sitemapToPDF_permutation[OF assms])
  also have "results_of ?seq =
      concat (map (\<lambda>u. if reaches_pdf h e outDir u then [outcome_of h e cliArgs outDir u] else [])
                (urls sitemap))"
    by (simp add: results_of_concat comp_def results_of_url_task)
  finally show ?thesis by (simp add: concat_map_if_filter)
qed

text \<open>
  C1 (the code does otherwise): the claim is that a failure of any step of the processing
  of a URL (directory creation, navigation, metadata extraction, rendering) stores an
  outcome with status ERRORED. The \<^verbatim>\<open>.catch\<close> that stores it hangs on \<^verbatim>\<open>page.pdf\<close>
  alone: when the rendering of \<open>''a''\<close> fails, ERRORED is stored; when the navigation
  to \<open>''a''\<close> fails, the promise rejects and nothing is stored. (What is stored in
  general is \<open>results_of_pageToPDF\<close>; the rejection stays in the URL's pool slot, see
  C3.)
\<close>

theorem pageToPDF_goto_failure_stores_nothing:
  "results_of (fst (pageToPDF ex_helpers ex_env_pdf_fails ex_cliArgs ''out'' ''a'' ex_tpl)) =
     [\<lparr>o_url = ''a'', o_filePath = ''out/a/Home.pdf'', o_status = STATUS_ERROR\<rparr>] \<and>
   snd (pageToPDF ex_helpers ex_env_pdf_fails ex_cliArgs ''out'' ''a'' ex_tpl) = Inl RenderError \<and>
   results_of (fst (pageToPDF ex_helpers ex_env_goto_fails ex_cliArgs ''out'' ''a'' ex_tpl)) = [] \<and>
   snd (pageToPDF ex_helpers ex_env_goto_fails ex_cliArgs ''out'' ''a'' ex_tpl) = Inl NavigationError"
  by (simp add: pageToPDF_def goto_chain_def print_page_def promise_defs ex_defs ex_env_defs Let_def
      pdf_filePath_def get_title_def metadatas_read_def pageFunction_def store_metas_def)



text \<open>
  C5 (the code does otherwise): the claim is that the inner pool bounds the URL
  conversions in flight, and hence the open page contexts, by the configured
  concurrency. The pool bounds the conversions; but a page whose directory cannot be
  created is never closed (see C6), so it stays open when the pool takes the next URL.
  With a pool of one slot and two URLs whose directories cannot be created, two pages
  are open at the end.
\<close>

theorem sitemapToPDF_pages_left_open:
  "processPool ex_cliArgs = 1 \<and>
   fst (sitemapToPDF ex_helpers ex_env_no_page_dir ex_cliArgs ''out'' ex_sitemap ex_tpl) =
     [EnsureDir ''out'' True, Logger Debug, Logger Info,
      Logger Debug, NewPage ''a'' True, EnsureDir ''out/a'' False,
      Logger Debug, NewPage ''b'' True, EnsureDir ''out/b'' False] \<and>
   open_pages (fst (sitemapToPDF ex_helpers ex_env_no_page_dir ex_cliArgs ''out'' ex_sitemap ex_tpl)) = 2"
proof -
  have e: "ensureDir_ok ex_env_no_page_dir ''out''" by (simp add: ex_defs ex_env_defs)
  have n: "processPool ex_cliArgs = 1" by (simp add: ex_defs)
  have a: "pageToPDF ex_helpers ex_env_no_page_dir ex_cliArgs ''out'' ''a'' ex_tpl =
     ([NewPage ''a'' True, EnsureDir ''out/a'' False], Inl FsError)"
    by (simp add: pageToPDF_def promise_defs ex_defs ex_env_defs Let_def)
  have b: "pageToPDF ex_helpers ex_env_no_page_dir ex_cliArgs ''out'' ''b'' ex_tpl =
     ([NewPage ''b'' True, EnsureDir ''out/b'' False], Inl FsError)"
    by (simp add: pageToPDF_def promise_defs ex_defs ex_env_defs Let_def)
  have t: "fst (sitemapToPDF ex_helpers ex_env_no_page_dir ex_cliArgs ''out'' ex_sitemap ex_tpl) =
     [EnsureDir ''out'' True, Logger Debug, Logger Info,
      Logger Debug, NewPage ''a'' True, EnsureDir ''out/a'' False,
      Logger Debug, NewPage ''b'' True, EnsureDir ''out/b'' False]"
    by (simp add: sitemapToPDF_unfold[OF e] pool_process_one[OF n] url_task_def a b ex_sitemap_def)
  show ?thesis unfolding t using n by simp
qed

text \<open>
  C9: a sitemap whose \<open>urls\<close> list is empty is skipped with a warning: the warning is
  the only effect, so no outcome is stored, the ERRORED count does not move and no URL
  is worked on.
\<close>
theorem processSitemap_no_urls:
  "urls sitemap = [] \<Longrightarrow>
   processSitemap h e cliArgs website sitemap = ([Logger Warn], Inr ()) \<and>
   results_of (fst (processSitemap h e cliArgs website sitemap)) = [] \<and>
   errored_count (fst (processSitemap h e cliArgs website sitemap)) = 0"
  by (simp add: processSitemap_def logger_def errored_count_def)

theorem processSitemap_no_urls_witness:
  "urls \<lparr>rootUrl = ''s'', urls = []\<rparr> = [] \<and>
   processSitemap ex_helpers ex_env ex_cliArgs ex_website \<lparr>rootUrl = ''s'', urls = []\<rparr> =
     ([Logger Warn], Inr ())"
  using processSitemap_no_urls[of "\<lparr>rootUrl = ''s'', urls = []\<rparr>" ex_helpers ex_env ex_cliArgs ex_website]
  by simp

section \<open>The run: processSitemaps\<close>




lemma processSitemaps_pool:
  "launch_ok e \<Longrightarrow> version_ok e \<Longrightarrow> context_ok e \<Longrightarrow>
   fst (processSitemaps h e cliArgs website) =
     [Launch True, BrowserVersion True, Logger Debug, CreateContext True, Logger Debug] @
     concat (map (sitemap_task h e cliArgs website) (sitemaps website)) @
     [PrintResults, BrowserClose (browserClose_ok e)]"
  by (simp add: processSitemaps_def then_p_def finally_p_def call_def printResults_def logger_def
      PromisePool_process_def pool_process_one sitemap_task_def comp_def)

text \<open>
  C4: the outer pool has one slot, so the sitemaps are processed one after the other:
  the trace of a run that reaches the pool is the start of the browser, then for each
  sitemap, in order, the whole trace of its processing, then the report and the
  closing of the browser. No effect of a sitemap comes before the last effect of an
  earlier one.
\<close>

theorem processSitemaps_serialized:
  assumes "launch_ok e" and "version_ok e" and "context_ok e"
  shows "fst (processSitemaps h e cliArgs website) =
     [Launch True, BrowserVersion True, Logger Debug, CreateContext True, Logger Debug] @
     concat (map (\<lambda>sitemap. Logger Debug # fst (processSitemap h e cliArgs website sitemap))
               (sitemaps website)) @
     [PrintResults, BrowserClose (browserClose_ok e)]"
  using processSitemaps_pool[OF assms, of h cliArgs website] by (simp add: sitemap_task_def)

text \<open>Two sitemaps.\<close>

theorem processSitemaps_serialized_witness:
  "launch_ok ex_env \<and> version_ok ex_env \<and> context_ok ex_env \<and>
   fst (processSitemaps ex_helpers ex_env ex_cliArgs ex_website2) =
     [Launch True, BrowserVersion True, Logger Debug, CreateContext True, Logger Debug] @
     (Logger Debug # fst (processSitemap ex_helpers ex_env ex_cliArgs ex_website2 ex_sitemap)) @
     (Logger Debug #
        fst (processSitemap ex_helpers ex_env ex_cliArgs ex_website2 \<lparr>rootUrl = ''t'', urls = [''c'']\<rparr>)) @
     [PrintResults, BrowserClose True]"
proof -
  have h: "launch_ok ex_env" "version_ok ex_env" "context_ok ex_env"
    by (simp_all add: ex_env_def)
  have s: "sitemaps ex_website2 = [ex_sitemap, \<lparr>rootUrl = ''t'', urls = [''c'']\<rparr>]"
    by (simp add: ex_website2_def)
  have c: "browserClose_ok ex_env" by (simp add: ex_env_def)
  from processSitemaps_serialized[OF h, of ex_helpers ex_cliArgs ex_website2] h c
  show ?thesis unfolding s by simp
qed







text \<open>A sitemap without URLs adds none.\<close>

lemma attempted_urls_all: "attempted_urls website = concat (map urls (sitemaps website))"
proof -
  have "concat (map urls (filter (\<lambda>s. length (urls s) \<noteq> 0) sms)) = concat (map urls sms)" for sms
    by (induction sms) simp_all
  then show ?thesis by (simp add: attempted_urls_def)
qed









text \<open>
  The run in which \<^verbatim>\<open>page.title()\<close> of \<open>''a''\<close> rejects: the process ends there,
  without the report.
\<close>

lemma run_ends_at_unhandled_rejection:
  "until_exit (fst (processSitemaps ex_helpers ex_env_title_rejects ex_cliArgs ex_website)) =
     [Launch True, BrowserVersion True, Logger Debug, CreateContext True, Logger Debug,
      Logger Debug, EnsureDir ''out'' True, Logger Debug, Logger Info,
      Logger Debug, NewPage ''a'' True, EnsureDir ''out/a'' True, Logger Debug, Goto ''a'' True,
      ProcessExit]"
proof -
  have h: "launch_ok ex_env_title_rejects" "version_ok ex_env_title_rejects"
    "context_ok ex_env_title_rejects"
    by (simp_all add: ex_env_title_rejects_def ex_env_def)
  have e: "ensureDir_ok ex_env_title_rejects ''out''"
    by (simp add: ex_env_title_rejects_def ex_env_def)
  have n: "processPool ex_cliArgs = 1" by (simp add: ex_cliArgs_def)
  have a: "fst (pageToPDF ex_helpers ex_env_title_rejects ex_cliArgs ''out'' ''a'' ex_tpl) =
     [NewPage ''a'' True, EnsureDir ''out/a'' True, Logger Debug, Goto ''a'' True, ProcessExit,
      ClosePage ''a'' True]"
    by (simp add: pageToPDF_def goto_chain_def promise_defs ex_defs ex_env_title_rejects_def Let_def)
  have s: "fst (processSitemap ex_helpers ex_env_title_rejects ex_cliArgs ex_website ex_sitemap) =
     [EnsureDir ''out'' True, Logger Debug, Logger Info] @
     (Logger Debug # fst (pageToPDF ex_helpers ex_env_title_rejects ex_cliArgs ''out'' ''a'' ex_tpl)) @
     (Logger Debug # fst (pageToPDF ex_helpers ex_env_title_rejects ex_cliArgs ''out'' ''b'' ex_tpl))"
  proof -
    have st: "fst (sitemapToPDF ex_helpers ex_env_title_rejects ex_cliArgs ''out'' ex_sitemap ex_tpl) =
       [EnsureDir ''out'' True, Logger Debug, Logger Info] @
       (Logger Debug # fst (pageToPDF ex_helpers ex_env_title_rejects ex_cliArgs ''out'' ''a'' ex_tpl)) @
       (Logger Debug # fst (pageToPDF ex_helpers ex_env_title_rejects ex_cliArgs ''out'' ''b'' ex_tpl))"
      by (simp add: sitemapToPDF_unfold[OF e] pool_process_one[OF n] url_task_def ex_sitemap_def)
    have o: "path_normalize ex_helpers (outputDir ex_cliArgs) = ''out''"
      by (simp add: ex_helpers_def ex_cliArgs_def)
    have pt: "pdfTemplate ex_website = ex_tpl" by (simp add: ex_website_def)
    have ne: "urls ex_sitemap \<noteq> []" by (simp add: ex_sitemap_def)
    show ?thesis by (simp add: processSitemap_def Let_def o pt ne st)
  qed
  have sm: "sitemaps ex_website = [ex_sitemap]" by (simp add: ex_website_def)
  show ?thesis
    unfolding processSitemaps_pool[OF h]
    by (simp add: sitemap_task_def sm s a)
qed

text \<open>The results of a run.\<close>

lemma results_of_processSitemap:
  assumes "1 \<le> processPool cliArgs" and "ensureDir_ok e (path_normalize h (outputDir cliArgs))"
  shows "mset (results_of (fst (processSitemap h e cliArgs website sitemap))) =
     mset (map (outcome_of h e cliArgs (path_normalize h (outputDir cliArgs)))
            (filter (reaches_pdf h e (path_normalize h (outputDir cliArgs))) (urls sitemap)))"
proof (cases "urls sitemap = []")
  case True
  then show ?thesis by (simp add: processSitemap_def logger_def)
next
  case False
  then show ?thesis
    using results_of_sitemapToPDF[OF assms, of h sitemap "pdfTemplate website"]
    by (simp add: processSitemap_def Let_def)
qed

lemma results_of_sitemap_tasks:
  assumes "1 \<le> processPool cliArgs" and "ensureDir_ok e (path_normalize h (outputDir cliArgs))"
  shows "mset (results_of (concat (map (sitemap_task h e cliArgs website) sms))) =
     mset (map (outcome_of h e cliArgs (path_normalize h (outputDir cliArgs)))
            (filter (reaches_pdf h e (path_normalize h (outputDir cliArgs))) (concat (map urls sms))))"
proof (induction sms)
  case Nil
  show ?case by simp
next
  case (Cons sm sms)
  have "results_of (sitemap_task h e cliArgs website sm) =
        results_of (fst (processSitemap h e cliArgs website sm))"
    by (simp add: sitemap_task_def)
  then show ?case
    using Cons results_of_processSitemap[OF assms, of website sm]
    by (simp add: results_of_append)
qed

lemma results_of_processSitemaps:
  assumes "launch_ok e" and "version_ok e" and "context_ok e"
    and "1 \<le> processPool cliArgs" and "ensureDir_ok e (path_normalize h (outputDir cliArgs))"
  shows "mset (results_of (fst (processSitemaps h e cliArgs website))) =
     mset (map (outcome_of h e cliArgs (path_normalize h (outputDir cliArgs)))
            (filter (reaches_pdf h e (path_normalize h (outputDir cliArgs))) (attempted_urls website)))"
proof -
  have "results_of (fst (processSitemaps h e cliArgs website)) =
        results_of (concat (map (sitemap_task h e cliArgs website) (sitemaps website)))"
    by (simp add: processSitemaps_pool[OF assms(1-3)] results_of_append)
  then show ?thesis
    using results_of_sitemap_tasks[OF assms(4,5), of website "sitemaps website"]
    by (simp add: attempted_urls_all)
qed

text \<open>
  C2 (the code does otherwise): the claim is that after a run the collection holds
  exactly one outcome per attempted URL, so that its size is the number of URLs of the
  sitemaps whose \<open>urls\<close> list is not empty. An outcome is stored only for a URL whose
  processing reached \<^verbatim>\<open>page.pdf\<close> (\<open>results_of_processSitemaps\<close>): here the
  navigation to \<open>''a''\<close> fails, two URLs are attempted and one outcome is stored.
\<close>

theorem run_goto_failure_leaves_no_result:
  "length (results_of (fst (processSitemaps ex_helpers ex_env_goto_fails ex_cliArgs ex_website))) = 1 \<and>
   length (attempted_urls ex_website) = 2"
proof -
  have h: "launch_ok ex_env_goto_fails" "version_ok ex_env_goto_fails" "context_ok ex_env_goto_fails"
    "1 \<le> processPool ex_cliArgs"
    "ensureDir_ok ex_env_goto_fails (path_normalize ex_helpers (outputDir ex_cliArgs))"
    by (simp_all add: ex_defs ex_env_defs)
  have a: "attempted_urls ex_website = [''a'', ''b'']"
    by (simp add: attempted_urls_def ex_defs)
  have f: "filter (reaches_pdf ex_helpers ex_env_goto_fails (path_normalize ex_helpers (outputDir ex_cliArgs)))
             [''a'', ''b''] = [''b'']"
    by (simp add: reaches_pdf_def ex_defs ex_env_defs)
  from results_of_processSitemaps[OF h, of ex_website]
  have "length (results_of (fst (processSitemaps ex_helpers ex_env_goto_fails ex_cliArgs ex_website))) =
        length (map (outcome_of ex_helpers ex_env_goto_fails ex_cliArgs (path_normalize ex_helpers (outputDir ex_cliArgs)))
          (filter (reaches_pdf ex_helpers ex_env_goto_fails (path_normalize ex_helpers (outputDir ex_cliArgs)))
             (attempted_urls ex_website)))"
    by (rule mset_eq_length)
  then show ?thesis unfolding a f by simp
qed

end
